theory Spec2Isabelle
  imports Main "HOL-Library.Word"
begin

section \<open>JavaScript values used by the panels\<close>

text \<open>
  A JavaScript string is a sequence of 16-bit code units. The literals of the source are
  ASCII, written here through \<open>js\<close>.
\<close>

type_synonym jsstring = "16 word list"

definition js :: "string \<Rightarrow> jsstring" where
  "js s = map of_char s"

text \<open>
  What an event handler leaves behind when it does not return normally: a \<open>TypeError\<close>
  raised by the engine on a property access on \<open>null\<close> or \<open>undefined\<close>, or a value
  thrown by a \<open>throw\<close> statement of the source.
\<close>

datatype exn = TypeError | Thrown jsstring

text \<open>
  Truthiness of a value that is a string, \<open>null\<close> or \<open>undefined\<close> (\<open>None\<close>):
  only a non-empty string is truthy. This is \<open>!!v\<close>, and \<open>!v\<close> is its negation.
\<close>

fun truthy :: "jsstring option \<Rightarrow> bool" where
  "truthy None = False"
| "truthy (Some s) = (s \<noteq> [])"

text \<open>\<open>v || ""\<close> for such a value.\<close>

definition or_empty :: "jsstring option \<Rightarrow> jsstring" where
  "or_empty v = (if truthy v then the v else [])"

text \<open>
  The characters matched by \<open>\s\<close> in a regular expression without the unicode flag:
  WhiteSpace and LineTerminator of ECMAScript.
\<close>

definition is_space :: "16 word \<Rightarrow> bool" where
  "is_space c \<longleftrightarrow>
     c = 0x09 \<or> c = 0x0A \<or> c = 0x0B \<or> c = 0x0C \<or> c = 0x0D \<or> c = 0x20 \<or> c = 0xA0
     \<or> c = 0x1680 \<or> (0x2000 \<le> c \<and> c \<le> 0x200A) \<or> c = 0x2028 \<or> c = 0x2029
     \<or> c = 0x202F \<or> c = 0x205F \<or> c = 0x3000 \<or> c = 0xFEFF"

text \<open>
  \<open>String.prototype.split\<close> with the separator \<open>/\s+|\s+/\<close>. Both alternatives are
  \<open>\s+\<close>, which is greedy and never matches the empty string: at a whitespace code unit
  the piece read so far is emitted and the whole run of whitespace is skipped; at the end of
  the string the last piece is emitted, also when it is empty. \<open>split_from cur rest\<close> is
  the loop, \<open>cur\<close> the piece read so far and \<open>rest\<close> the input left.
\<close>

function split_from :: "jsstring \<Rightarrow> jsstring \<Rightarrow> jsstring list" where
  "split_from cur [] = [cur]"
| "split_from cur (c # cs) =
     (if is_space c then cur # split_from [] (dropWhile is_space cs)
      else split_from (cur @ [c]) cs)"
  by pat_completeness auto
termination
  by (relation "measure (\<lambda>(cur, rest). length rest)")
     (auto simp: le_imp_less_Suc length_dropWhile_le)

definition split_ws :: "jsstring \<Rightarrow> jsstring list" where
  "split_ws s = split_from [] s"

text \<open>\<open>Array.prototype.indexOf\<close>: the first index of the element, or \<open>-1\<close>.\<close>

fun indexOf :: "'a list \<Rightarrow> 'a \<Rightarrow> int" where
  "indexOf [] x = -1"
| "indexOf (y # ys) x =
     (if y = x then 0 else (let i = indexOf ys x in if i = -1 then -1 else i + 1))"

text \<open>\<open>String.prototype.startsWith\<close>.\<close>

definition startsWith :: "jsstring \<Rightarrow> jsstring \<Rightarrow> bool" where
  "startsWith s p \<longleftrightarrow> take (length p) s = p"

section \<open>Running tasks: the status renderer\<close>

text \<open>The template literal of \<open>render_status\<close>, for a glyph class \<open>cls\<close>.\<close>

definition icon :: "jsstring \<Rightarrow> jsstring" where
  "icon cls = js ''<i class=\"fa fa-'' @ cls @ js ''\"></i>''"

definition render_status :: "jsstring \<Rightarrow> jsstring" where
  "render_status v =
     (let cls = js ''times-circle critical'';
          cls = (if v = js ''OK'' then js ''check-circle good''
                 else if startsWith v (js ''WARNINGS:'') then js ''exclamation-circle warning''
                 else if v = js ''unknown'' then js ''question-circle faded''
                 else cls)
      in icon cls)"

section \<open>The shared device list\<close>

text \<open>
  A record of the tape device store, as the panels read it: the drive's name and its
  \<open>state\<close>, the identifier of the task that owns the drive, or \<open>null\<close>.
\<close>

record device =
  name :: jsstring
  state :: "jsstring option"

record tapestore =
  records :: "device list"
  isLoaded :: bool

text \<open>
  \<open>store.findRecord('name', value, 0, false, true, true)\<close>: the first record, from index
  0, whose name is the value (no partial match, case sensitive, exact), or \<open>null\<close>.
\<close>

definition findRecord :: "jsstring \<Rightarrow> device list \<Rightarrow> device option" where
  "findRecord v store = find (\<lambda>r. name r = v) store"

section \<open>Components and references\<close>

datatype component =
  Component (xtype: string) (reference: "string option") (items: "component list")

fun lookupReference :: "string \<Rightarrow> component \<Rightarrow> component option"
  and lookupIn :: "string \<Rightarrow> component list \<Rightarrow> component option" where
  "lookupReference key (Component x r cs) =
     (if r = Some key then Some (Component x r cs) else lookupIn key cs)"
| "lookupIn key [] = None"
| "lookupIn key (c # cs) =
     (case lookupReference key c of Some f \<Rightarrow> Some f | None \<Rightarrow> lookupIn key cs)"

text \<open>The \<open>items\<close> of the drive information panel and of the drive status panel.\<close>

definition DriveInfoPanel_items :: "component list" where
  "DriveInfoPanel_items =
     [Component ''pmxInfoWidget'' None [],
      Component ''pmxInfoWidget'' None [],
      Component ''pmxInfoWidget'' None [],
      Component ''pmxInfoWidget'' None [],
      Component ''pmxInfoWidget'' None [],
      Component ''pmxInfoWidget'' (Some ''statewidget'') []]"

definition DriveStatus_items :: "component list" where
  "DriveStatus_items =
     [Component ''container'' None
        [Component ''pbsDriveInfoPanel'' None DriveInfoPanel_items,
         Component ''pbsDriveStatusGrid'' (Some ''statusgrid'') []]]"

text \<open>
  \<open>me.lookup(key)\<close> of the status panel's controller: the component of the view with
  that reference, or \<open>null\<close>. The buttons of the toolbar carry no reference.
\<close>

definition lookup :: "string \<Rightarrow> component option" where
  "lookup key = lookupIn key DriveStatus_items"

section \<open>The drive status panel\<close>

text \<open>A callback queued with \<open>setTimeout\<close> on the status grid.\<close>

datatype timer = Mask jsstring | Unmask

text \<open>The payload of a response: a string (a task identifier) or an object.\<close>

datatype jsdata = Str jsstring | Obj "(string \<times> jsstring) list"

text \<open>
  The windows the panel opens. \<open>TaskProgress\<close> and \<open>TaskViewer\<close> are created by the
  controller with a \<open>taskDone\<close> callback that reloads the panel.
\<close>

datatype window =
    LabelMediaWindow jsstring
  | TaskProgress jsdata
  | TaskViewer jsdata
  | MediaLabelWindow jsdata
  | VolumeStatisticsWindow jsdata
  | CartridgeMemoryWindow jsdata
  | ErrorAlert jsstring

text \<open>
  The panel: the view's \<open>drive\<close>, the three flags of the view model, and what the
  handlers do to the rest of the page: loads of the status grid's store, callbacks queued
  with \<open>setTimeout\<close>, windows shown, requests sent, listeners registered, and the rows of
  the grids' stores by reference.
\<close>

record drive_status =
  drive :: jsstring
  online :: bool
  busy :: bool
  loaded :: bool
  status_loads :: nat
  timers :: "timer list"
  windows :: "window list"
  requests :: "(jsstring \<times> string) list"
  listeners :: "(string \<times> string) list"
  store_rows :: "string \<Rightarrow> jsdata list"

text \<open>The panel as it is created: \<open>viewModel.data\<close> and nothing done yet.\<close>

definition DriveStatus_new :: "jsstring \<Rightarrow> drive_status" where
  "DriveStatus_new d =
     \<lparr>drive = d, online = False, busy = True, loaded = False, status_loads = 0,
      timers = [], windows = [], requests = [], listeners = [], store_rows = (\<lambda>_. [])\<rparr>"

definition gettext :: "jsstring \<Rightarrow> jsstring" where
  "gettext s = s"

text \<open>\<open>statusgrid.getObjectValue(key)\<close> on the rows of the status grid.\<close>

definition getObjectValue :: "(string \<rightharpoonup> jsstring) \<Rightarrow> string \<Rightarrow> jsstring option" where
  "getObjectValue rows key = rows key"

definition reload :: "drive_status \<Rightarrow> drive_status \<times> exn option" where
  "reload me =
     (case lookup ''statusgrid'' of
        None \<Rightarrow> (me, Some TypeError)
      | Some statusgrid \<Rightarrow> (me\<lparr>status_loads := Suc (status_loads me)\<rparr>, None))"

text \<open>
  \<open>onLoad\<close>, the handler of the status grid's load event; \<open>rows\<close> is what the grid
  holds after the load.
\<close>

definition onLoad :: "(string \<rightharpoonup> jsstring) \<Rightarrow> drive_status \<Rightarrow> drive_status \<times> exn option" where
  "onLoad rows me =
     (case lookup ''statusgrid'' of
        None \<Rightarrow> (me, Some TypeError)
      | Some statusgrid \<Rightarrow>
          (let statusFlags = split_ws (or_empty (getObjectValue rows ''status''));
               online = (indexOf statusFlags (js ''ONLINE'') \<noteq> -1);
               vm = me\<lparr>online := online\<rparr>
           in if \<not> online then
                (case lookup ''cartridgegrid'' of
                   None \<Rightarrow> (vm, Some TypeError)
                 | Some cartridgegrid \<Rightarrow>
                     (vm\<lparr>store_rows := (store_rows vm)(''cartridgegrid'' := [])\<rparr>, None))
              else (vm, None)))"

text \<open>
  \<open>onStateLoad\<close>, the handler of the device list's load event; \<open>store\<close> is the records
  of the device list. The status grid it looks up is used by the two queued callbacks
  only.
\<close>

definition onStateLoad :: "device list \<Rightarrow> drive_status \<Rightarrow> drive_status \<times> exn option" where
  "onStateLoad store me =
     (case findRecord (drive me) store of
        None \<Rightarrow> (me, Some TypeError)
      | Some driveRecord \<Rightarrow>
          (let busy = truthy (state driveRecord);
               vm = me\<lparr>busy := busy\<rparr>
           in if \<not> loaded vm then
                (if busy then
                   (vm\<lparr>timers := timers vm @ [Mask (gettext (js ''Drive is busy''))]\<rparr>, None)
                 else
                   (case reload (vm\<lparr>timers := timers vm @ [Unmask]\<rparr>) of
                      (vm', Some e) \<Rightarrow> (vm', Some e)
                    | (vm', None) \<Rightarrow> (vm'\<lparr>loaded := True\<rparr>, None)))
              else (vm, None)))"

text \<open>
  A sequence of load events of the device list, one handler call each. An exception
  leaves the handler and the panel stays as the handler left it.
\<close>

fun stateLoads :: "device list list \<Rightarrow> drive_status \<Rightarrow> drive_status" where
  "stateLoads [] me = me"
| "stateLoads (store # rest) me = stateLoads rest (fst (onStateLoad store me))"

text \<open>
  The automatic unmask and reload of one call: the unmask is queued and the status grid's
  store is loaded once more.
\<close>

definition auto_reload_fired :: "device list \<Rightarrow> drive_status \<Rightarrow> bool" where
  "auto_reload_fired store me =
     (let me' = fst (onStateLoad store me)
      in timers me' = timers me @ [Unmask] \<and> status_loads me' = Suc (status_loads me))"

text \<open>For each event of a sequence: whether it fired, and the latch after it.\<close>

fun fired_at :: "device list list \<Rightarrow> drive_status \<Rightarrow> bool list" where
  "fired_at [] me = []"
| "fired_at (store # rest) me =
     auto_reload_fired store me # fired_at rest (fst (onStateLoad store me))"

fun loaded_after :: "device list list \<Rightarrow> drive_status \<Rightarrow> bool list" where
  "loaded_after [] me = []"
| "loaded_after (store # rest) me =
     loaded (fst (onStateLoad store me)) # loaded_after rest (fst (onStateLoad store me))"

text \<open>A snapshot of the device list in which the drive is present and no task owns it.\<close>

definition idle_in :: "jsstring \<Rightarrow> device list \<Rightarrow> bool" where
  "idle_in d store =
     (case findRecord d store of None \<Rightarrow> False | Some r \<Rightarrow> state r = None \<or> state r = Some [])"

text \<open>
  The index of the first event of a sequence with the drive idle, or the length of the
  sequence when there is none.
\<close>

definition first_idle :: "jsstring \<Rightarrow> device list list \<Rightarrow> nat" where
  "first_idle d stores = length (takeWhile (\<lambda>store. \<not> idle_in d store) stores)"

subsection \<open>Commands\<close>

datatype response = Success jsdata | Failure jsstring

text \<open>
  Modelled from the spec: \<open>PBS.Utils.driveCommand\<close>, which is not part of the sources at
  hand. It sends the command for the drive; the backend answers with a payload or a task
  identifier, handed to the \<open>success\<close> callback, or the request fails, which is shown as
  a message and not retried. \<open>resp\<close> is the backend's answer.
\<close>

definition driveCommand ::
  "jsstring \<Rightarrow> string \<Rightarrow> response \<Rightarrow> (jsdata \<Rightarrow> drive_status \<Rightarrow> drive_status \<times> exn option)
     \<Rightarrow> drive_status \<Rightarrow> drive_status \<times> exn option" where
  "driveCommand driveid command resp success me =
     (let sent = me\<lparr>requests := requests me @ [(driveid, command)]\<rparr>
      in case resp of
           Success d \<Rightarrow> success d sent
         | Failure msg \<Rightarrow> (sent\<lparr>windows := windows sent @ [ErrorAlert msg]\<rparr>, None))"

text \<open>\<open>Ext.create(...).show()\<close>: the window is added to the page.\<close>

definition show_window :: "window \<Rightarrow> drive_status \<Rightarrow> drive_status \<times> exn option" where
  "show_window w me = (me\<lparr>windows := windows me @ [w]\<rparr>, None)"

definition labelMedia :: "drive_status \<Rightarrow> drive_status \<times> exn option" where
  "labelMedia me = show_window (LabelMediaWindow (drive me)) me"

definition ejectMedia :: "response \<Rightarrow> drive_status \<Rightarrow> drive_status \<times> exn option" where
  "ejectMedia resp me =
     driveCommand (drive me) ''eject-media'' resp (\<lambda>d. show_window (TaskProgress d)) me"

definition catalog :: "response \<Rightarrow> drive_status \<Rightarrow> drive_status \<times> exn option" where
  "catalog resp me =
     driveCommand (drive me) ''catalog'' resp (\<lambda>d. show_window (TaskViewer d)) me"

text \<open>
  Modelled from the spec: \<open>PBS.Utils.showMediaLabelWindow\<close>,
  \<open>PBS.Utils.showVolumeStatisticsWindow\<close> and \<open>PBS.Utils.showCartridgeMemoryWindow\<close>,
  the success callbacks of the three commands below, are not part of the sources at hand.
  These commands return a result payload and need no task tracking; the callback shows
  the payload in a window of its own.
\<close>

definition readLabel :: "response \<Rightarrow> drive_status \<Rightarrow> drive_status \<times> exn option" where
  "readLabel resp me =
     driveCommand (drive me) ''read-label'' resp (\<lambda>d. show_window (MediaLabelWindow d)) me"

definition volumeStatistics :: "response \<Rightarrow> drive_status \<Rightarrow> drive_status \<times> exn option" where
  "volumeStatistics resp me =
     driveCommand (drive me) ''volume-statistics'' resp
       (\<lambda>d. show_window (VolumeStatisticsWindow d)) me"

definition cartridgeMemory :: "response \<Rightarrow> drive_status \<Rightarrow> drive_status \<times> exn option" where
  "cartridgeMemory resp me =
     driveCommand (drive me) ''cartridge-memory'' resp
       (\<lambda>d. show_window (CartridgeMemoryWindow d)) me"

text \<open>
  The completion of the task of a window: the windows created with a \<open>taskDone\<close>
  callback run it, and the callback is \<open>me.reload()\<close>.
\<close>

fun taskDone :: "window \<Rightarrow> drive_status \<Rightarrow> drive_status \<times> exn option" where
  "taskDone (TaskProgress upid) me = reload me"
| "taskDone (TaskViewer upid) me = reload me"
| "taskDone w me = (me, None)"

text \<open>The task handles among the windows of the panel.\<close>

fun is_task_handle :: "window \<Rightarrow> bool" where
  "is_task_handle (TaskProgress upid) = True"
| "is_task_handle (TaskViewer upid) = True"
| "is_task_handle w = False"

definition task_handles :: "drive_status \<Rightarrow> window list" where
  "task_handles me = filter is_task_handle (windows me)"

text \<open>\<open>init\<close> of the controller; \<open>navigationtree\<close> is the result of the component query.\<close>

definition init :: "tapestore list \<Rightarrow> drive_status \<Rightarrow> drive_status \<times> exn option" where
  "init navigationtree me =
     (case lookup ''statusgrid'' of
        None \<Rightarrow> (me, Some TypeError)
      | Some statusgrid \<Rightarrow>
          (let me1 = me\<lparr>listeners := listeners me @ [(''statusgrid.rstore'', ''onLoad'')]\<rparr>
           in case navigationtree of
                [] \<Rightarrow> (me1, Some TypeError)
              | tapeStore # _ \<Rightarrow>
                  (let me2 = me1\<lparr>listeners := listeners me1 @ [(''tapeStore'', ''onStateLoad'')]\<rparr>
                   in if isLoaded tapeStore then onStateLoad (records tapeStore) me2
                      else (me2, None))))"

subsection \<open>The toolbar\<close>

text \<open>The buttons of \<open>tbar\<close>: text, handler and the binding of \<open>disabled\<close>.\<close>

record button =
  text_of :: string
  handler :: string
  bind_disabled :: string

definition tbar :: "button list" where
  "tbar =
     [\<lparr>text_of = ''Reload'', handler = ''reload'', bind_disabled = ''{busy}''\<rparr>,
      \<lparr>text_of = ''Label Media'', handler = ''labelMedia'', bind_disabled = ''{!online}''\<rparr>,
      \<lparr>text_of = ''Eject'', handler = ''ejectMedia'', bind_disabled = ''{!online}''\<rparr>,
      \<lparr>text_of = ''Catalog'', handler = ''catalog'', bind_disabled = ''{!online}''\<rparr>,
      \<lparr>text_of = ''Read Label'', handler = ''readLabel'', bind_disabled = ''{!online}''\<rparr>,
      \<lparr>text_of = ''Volume Statistics'', handler = ''volumeStatistics'',
       bind_disabled = ''{!online}''\<rparr>,
      \<lparr>text_of = ''Cartridge Memory'', handler = ''cartridgeMemory'',
       bind_disabled = ''{!online}''\<rparr>]"

text \<open>\<open>vm.get(key)\<close> on the data of the view model: a flag, or \<open>undefined\<close>.\<close>

definition vm_get :: "drive_status \<Rightarrow> string \<Rightarrow> bool option" where
  "vm_get me key =
     (if key = ''online'' then Some (online me)
      else if key = ''busy'' then Some (busy me)
      else if key = ''loaded'' then Some (loaded me)
      else None)"

text \<open>
  The value of a bind descriptor of the two shapes the toolbar uses, \<open>{key}\<close> and
  \<open>{!key}\<close>; \<open>undefined\<close> counts as false. Any other text is not a binding.
\<close>

definition bind_value :: "string \<Rightarrow> drive_status \<Rightarrow> bool option" where
  "bind_value descr me =
     (case descr of
        [] \<Rightarrow> None
      | c # rest \<Rightarrow>
          (if c = CHR ''{'' \<and> rest \<noteq> [] \<and> last rest = CHR ''}'' then
             (case butlast rest of
                [] \<Rightarrow> None
              | e # key \<Rightarrow>
                  (if e = CHR ''!'' then Some (\<not> (vm_get me key = Some True))
                   else Some (vm_get me (e # key) = Some True)))
           else None))"

text \<open>Whether the button with the given text is enabled: its \<open>disabled\<close> binding is false.\<close>

definition button_enabled :: "string \<Rightarrow> drive_status \<Rightarrow> bool option" where
  "button_enabled t me =
     (case find (\<lambda>b. text_of b = t) tbar of
        None \<Rightarrow> None
      | Some b \<Rightarrow> map_option Not (bind_value (bind_disabled b) me))"

section \<open>The drive information panel\<close>

text \<open>
  The panel: its \<open>drive\<close> configuration (possibly absent), the \<open>drive\<close> of its view
  model, the listeners it registered, the click listener and the class of the state
  widget, and whether the parent's \<open>initComponent\<close> has run.
\<close>

record drive_info =
  info_drive :: "jsstring option"
  vm_drive :: "device option"
  info_listeners :: "(string \<times> string) list"
  click_listener :: bool
  info_pointer :: bool
  parent_initialized :: bool

definition updateData :: "tapestore option \<Rightarrow> drive_info \<Rightarrow> drive_info \<times> exn option" where
  "updateData store me =
     (case store of
        None \<Rightarrow> (me, None)
      | Some st \<Rightarrow>
          (case (case info_drive me of None \<Rightarrow> None | Some d \<Rightarrow> findRecord d (records st)) of
             None \<Rightarrow> (me, None)
           | Some record \<Rightarrow>
               (let me1 = me\<lparr>vm_drive := Some record\<rparr>
                in case lookupIn ''statewidget'' DriveInfoPanel_items of
                     None \<Rightarrow> (me1, Some TypeError)
                   | Some stateWidget \<Rightarrow>
                       (let me2 = me1\<lparr>click_listener := False\<rparr>
                        in if truthy (state record)
                           then (me2\<lparr>click_listener := True, info_pointer := True\<rparr>, None)
                           else (me2\<lparr>info_pointer := False\<rparr>, None)))))"

definition initComponent :: "tapestore list \<Rightarrow> drive_info \<Rightarrow> drive_info \<times> exn option" where
  "initComponent navigationtree me =
     (if \<not> truthy (info_drive me) then (me, Some (Thrown (js ''no drive given'')))
      else
        (case navigationtree of
           [] \<Rightarrow> (me, Some TypeError)
         | tapeStore # _ \<Rightarrow>
             (let me1 = me\<lparr>info_listeners := info_listeners me @ [(''tapeStore'', ''updateData'')]\<rparr>
              in case (if isLoaded tapeStore then updateData (Some tapeStore) me1 else (me1, None)) of
                   (me2, Some e) \<Rightarrow> (me2, Some e)
                 | (me2, None) \<Rightarrow> (me2\<lparr>parent_initialized := True\<rparr>, None))))"

section \<open>The specification's tokenization\<close>

text \<open>
  The specification speaks of the status field tokenized on whitespace. Its tokens are
  the maximal runs of code units that are not whitespace: skip the whitespace, take the
  run, go on behind it. This definition follows the specification, not the code.
\<close>

function spec_tokens :: "jsstring \<Rightarrow> jsstring list" where
  "spec_tokens s =
     (let w = dropWhile is_space s
      in if w = [] then []
         else takeWhile (\<lambda>c. \<not> is_space c) w # spec_tokens (dropWhile (\<lambda>c. \<not> is_space c) w))"
  by pat_completeness auto
termination
proof (relation "measure length", goal_cases)
  case 1
  show ?case by simp
next
  case (2 s w)
  then have "\<not> is_space (hd w)" "w \<noteq> []"
    using hd_dropWhile [of is_space s] by auto
  then have "dropWhile (\<lambda>c. \<not> is_space c) w = dropWhile (\<lambda>c. \<not> is_space c) (tl w)"
    by (cases w) auto
  moreover have "length (dropWhile (\<lambda>c. \<not> is_space c) (tl w)) \<le> length (tl w)"
    by (rule length_dropWhile_le)
  moreover have "length (tl w) < length w" using \<open>w \<noteq> []\<close> by simp
  moreover have "length w \<le> length s" using 2 by (simp add: length_dropWhile_le)
  ultimately show ?case by simp
qed

declare spec_tokens.simps [simp del]

section \<open>Properties\<close>

subsection \<open>The status renderer\<close>

lemma startsWith_iff: "startsWith s p \<longleftrightarrow> (\<exists>rest. s = p @ rest)"
proof
  assume "startsWith s p"
  then have "s = p @ drop (length p) s"
    unfolding startsWith_def by (metis append_take_drop_id)
  then show "\<exists>rest. s = p @ rest" ..
next
  assume "\<exists>rest. s = p @ rest"
  then show "startsWith s p"
    unfolding startsWith_def by auto
qed

lemma icon_inject: "icon a = icon b \<longleftrightarrow> a = b"
  by (simp add: icon_def)

lemma not_startsWith_OK: "\<not> startsWith (js ''OK'') (js ''WARNINGS:'')"
  by (simp add: startsWith_def js_def)

lemma not_startsWith_unknown: "\<not> startsWith (js ''unknown'') (js ''WARNINGS:'')"
  by (simp add: startsWith_def js_def)

lemma glyph_classes_distinct:
  "js ''check-circle good'' \<noteq> js ''exclamation-circle warning''"
  "js ''check-circle good'' \<noteq> js ''question-circle faded''"
  "js ''check-circle good'' \<noteq> js ''times-circle critical''"
  "js ''exclamation-circle warning'' \<noteq> js ''question-circle faded''"
  "js ''exclamation-circle warning'' \<noteq> js ''times-circle critical''"
  "js ''question-circle faded'' \<noteq> js ''times-circle critical''"
  "js ''OK'' \<noteq> js ''unknown''"
  by (simp_all add: js_def)

text \<open>
  Claim C9. The status renderer of the running-tasks grid maps every status string to
  exactly one glyph: the success glyph exactly for \<open>OK\<close>, the warning glyph exactly for
  the strings that begin with \<open>WARNINGS:\<close>, the faded question glyph exactly for
  \<open>unknown\<close>, and the critical glyph exactly for every other string.
\<close>

theorem render_status_glyph:
  "(render_status v = icon (js ''check-circle good'') \<longleftrightarrow> v = js ''OK'')
   \<and> (render_status v = icon (js ''exclamation-circle warning'')
        \<longleftrightarrow> (\<exists>rest. v = js ''WARNINGS:'' @ rest))
   \<and> (render_status v = icon (js ''question-circle faded'') \<longleftrightarrow> v = js ''unknown'')
   \<and> (render_status v = icon (js ''times-circle critical'')
        \<longleftrightarrow> \<not> (v = js ''OK'' \<or> (\<exists>rest. v = js ''WARNINGS:'' @ rest) \<or> v = js ''unknown''))"
proof -
  have w: "(\<exists>rest. v = js ''WARNINGS:'' @ rest) \<longleftrightarrow> startsWith v (js ''WARNINGS:'')"
    by (simp add: startsWith_iff)
  have d: "js ''exclamation-circle warning'' \<noteq> js ''check-circle good''"
    "js ''question-circle faded'' \<noteq> js ''check-circle good''"
    "js ''times-circle critical'' \<noteq> js ''check-circle good''"
    "js ''question-circle faded'' \<noteq> js ''exclamation-circle warning''"
    "js ''times-circle critical'' \<noteq> js ''exclamation-circle warning''"
    "js ''times-circle critical'' \<noteq> js ''question-circle faded''"
    using glyph_classes_distinct by metis+
  show ?thesis
    unfolding w
    using not_startsWith_OK not_startsWith_unknown
    by (auto simp: render_status_def Let_def icon_inject glyph_classes_distinct d)
qed

theorem render_status_glyph_witness:
  "render_status (js ''WARNINGS: 2'') = icon (js ''exclamation-circle warning'')
   \<and> render_status (js ''OK'') = icon (js ''check-circle good'')
   \<and> render_status (js ''unknown'') = icon (js ''question-circle faded'')
   \<and> render_status (js ''connection error'') = icon (js ''times-circle critical'')"
proof -
  have a: "\<exists>rest. js ''WARNINGS: 2'' = js ''WARNINGS:'' @ rest"
    by (simp add: js_def)
  have b: "\<not> (js ''connection error'' = js ''OK''
              \<or> (\<exists>rest. js ''connection error'' = js ''WARNINGS:'' @ rest)
              \<or> js ''connection error'' = js ''unknown'')"
    by (simp add: js_def)
  show ?thesis
    using a b render_status_glyph [of "js ''WARNINGS: 2''"] render_status_glyph [of "js ''OK''"]
      render_status_glyph [of "js ''unknown''"] render_status_glyph [of "js ''connection error''"]
    by blast
qed

subsection \<open>References of the status panel\<close>

lemma lookup_statusgrid:
  "lookup ''statusgrid'' = Some (Component ''pbsDriveStatusGrid'' (Some ''statusgrid'') [])"
  by (simp add: lookup_def DriveStatus_items_def DriveInfoPanel_items_def)

lemma lookup_cartridgegrid: "lookup ''cartridgegrid'' = None"
  by (simp add: lookup_def DriveStatus_items_def DriveInfoPanel_items_def)

subsection \<open>The online flag\<close>

lemma indexOf_ge: "- 1 \<le> indexOf xs x"
  by (induction xs) (auto simp: Let_def)

lemma indexOf_iff: "indexOf xs x \<noteq> - 1 \<longleftrightarrow> x \<in> set xs"
proof (induction xs)
  case Nil
  show ?case by simp
next
  case (Cons y ys)
  have "indexOf ys x + 1 \<noteq> - 1" using indexOf_ge [of ys x] by arith
  with Cons show ?case by (auto simp: Let_def)
qed

lemma spec_tokens_Nil: "spec_tokens [] = []"
  by (simp add: spec_tokens.simps)

lemma spec_tokens_space: "is_space c \<Longrightarrow> spec_tokens (c # cs) = spec_tokens cs"
  by (subst spec_tokens.simps, subst (2) spec_tokens.simps) simp

lemma spec_tokens_dropWhile: "spec_tokens (dropWhile is_space s) = spec_tokens s"
  by (induction s) (simp_all add: spec_tokens_space)

lemma spec_tokens_word:
  assumes "cur \<noteq> []" "\<forall>c\<in>set cur. \<not> is_space c" "rest = [] \<or> is_space (hd rest)"
  shows "spec_tokens (cur @ rest) = cur # spec_tokens rest"
proof -
  have d: "dropWhile is_space (cur @ rest) = cur @ rest"
    using assms(1,2) by (cases cur) auto
  have t: "takeWhile (\<lambda>c. \<not> is_space c) (cur @ rest) = cur"
    using assms(2,3) by (cases rest) (auto simp: takeWhile_append)
  have r: "dropWhile (\<lambda>c. \<not> is_space c) (cur @ rest) = rest"
    using assms(2,3) by (cases rest) (auto simp: dropWhile_append)
  show ?thesis
    using assms(1) by (subst spec_tokens.simps) (simp add: d t r Let_def)
qed

text \<open>
  The pieces of the split that are not empty are the tokens: the piece being read never
  holds whitespace, and the split emits it exactly where a run ends.
\<close>

lemma split_from_tokens:
  "\<forall>c\<in>set cur. \<not> is_space c \<Longrightarrow>
   filter (\<lambda>t. t \<noteq> []) (split_from cur rest) = spec_tokens (cur @ rest)"
proof (induction cur rest rule: split_from.induct)
  case (1 cur)
  show ?case
  proof (cases "cur = []")
    case True
    then show ?thesis by (simp add: spec_tokens_Nil)
  next
    case False
    then show ?thesis
      using spec_tokens_word [of cur "[]"] 1 by (simp add: spec_tokens_Nil)
  qed
next
  case (2 cur c cs)
  show ?case
  proof (cases "is_space c")
    case True
    have ih: "filter (\<lambda>t. t \<noteq> []) (split_from [] (dropWhile is_space cs)) = spec_tokens cs"
      using "2.IH"(1) [OF True] by (simp add: spec_tokens_dropWhile)
    show ?thesis
    proof (cases "cur = []")
      case True
      with \<open>is_space c\<close> ih show ?thesis by (simp add: spec_tokens_space)
    next
      case False
      then have "spec_tokens (cur @ c # cs) = cur # spec_tokens (c # cs)"
        using spec_tokens_word [of cur "c # cs"] "2.prems" True by simp
      with False True ih show ?thesis by (simp add: spec_tokens_space)
    qed
  next
    case False
    then show ?thesis using "2.IH"(2) "2.prems" by simp
  qed
qed

lemma split_ws_tokens:
  assumes "t \<noteq> []"
  shows "t \<in> set (split_ws s) \<longleftrightarrow> t \<in> set (spec_tokens s)"
proof -
  have "set (spec_tokens s) = set (filter (\<lambda>t. t \<noteq> []) (split_ws s))"
    using split_from_tokens [of "[]" s] by (simp add: split_ws_def)
  with assms show ?thesis by auto
qed

lemma ONLINE_not_empty: "js ''ONLINE'' \<noteq> []"
  by (simp add: js_def)

lemma onLoad_online:
  "online (fst (onLoad rows me)) \<longleftrightarrow>
     js ''ONLINE'' \<in> set (split_ws (or_empty (getObjectValue rows ''status'')))"
  by (simp add: onLoad_def lookup_statusgrid lookup_cartridgegrid Let_def indexOf_iff)

lemma or_empty_eq: "or_empty v = (case v of None \<Rightarrow> [] | Some s \<Rightarrow> s)"
  by (cases v) (auto simp: or_empty_def)

lemma tokens_ONLINE_READY: "spec_tokens (js ''ONLINE READY'') = [js ''ONLINE'', js ''READY'']"
  by (simp add: spec_tokens.simps js_def is_space_def)

lemma tokens_OFFLINE: "spec_tokens (js ''OFFLINE'') = [js ''OFFLINE'']"
  by (simp add: spec_tokens.simps js_def is_space_def)

text \<open>
  Claim C3. After every load of the status detail, the flag \<open>online\<close> of the view model
  is true exactly if \<open>ONLINE\<close> is one of the tokens of the status field (the empty
  string when the field is absent) split on whitespace. This holds whether or not the
  handler then raises. A status of \<open>ONLINE READY\<close> gives true, \<open>OFFLINE\<close> gives false.
\<close>

theorem onLoad_online_iff_token:
  "(online (fst (onLoad rows me)) \<longleftrightarrow>
      js ''ONLINE'' \<in> set (spec_tokens (case rows ''status'' of None \<Rightarrow> [] | Some s \<Rightarrow> s)))
   \<and> online (fst (onLoad [''status'' \<mapsto> js ''ONLINE READY''] me))
   \<and> \<not> online (fst (onLoad [''status'' \<mapsto> js ''OFFLINE''] me))"
proof -
  have g: "online (fst (onLoad r m)) \<longleftrightarrow>
      js ''ONLINE'' \<in> set (spec_tokens (case r ''status'' of None \<Rightarrow> [] | Some s \<Rightarrow> s))" for r m
    unfolding onLoad_online getObjectValue_def or_empty_eq
    by (rule split_ws_tokens [OF ONLINE_not_empty])
  have a: "online (fst (onLoad [''status'' \<mapsto> js ''ONLINE READY''] me))"
    unfolding g by (simp add: tokens_ONLINE_READY)
  have "js ''ONLINE'' \<noteq> js ''OFFLINE''" by (simp add: js_def)
  then have b: "\<not> online (fst (onLoad [''status'' \<mapsto> js ''OFFLINE''] me))"
    unfolding g by (simp add: tokens_OFFLINE)
  from g a b show ?thesis by blast
qed

theorem onLoad_online_iff_token_witness:
  "online (fst (onLoad [''status'' \<mapsto> js ''DR_OPEN  ONLINE IM_REP_EN''] (DriveStatus_new (js ''drive0''))))
   \<and> \<not> online (fst (onLoad Map.empty (DriveStatus_new (js ''drive0''))))"
proof -
  have t: "spec_tokens (js ''DR_OPEN  ONLINE IM_REP_EN'')
             = [js ''DR_OPEN'', js ''ONLINE'', js ''IM_REP_EN'']"
    by (simp add: spec_tokens.simps js_def is_space_def)
  show ?thesis
    using onLoad_online_iff_token [of "[''status'' \<mapsto> js ''DR_OPEN  ONLINE IM_REP_EN'']"
        "DriveStatus_new (js ''drive0'')"]
      onLoad_online_iff_token [of Map.empty "DriveStatus_new (js ''drive0'')"]
    by (simp add: t spec_tokens_Nil)
qed


subsection \<open>The handler of the device list\<close>

lemma reload_ok: "reload me = (me\<lparr>status_loads := Suc (status_loads me)\<rparr>, None)"
  by (simp add: reload_def lookup_statusgrid)

lemma truthy_iff: "truthy v \<longleftrightarrow> v \<noteq> None \<and> v \<noteq> Some []"
  by (cases v) auto

lemma onStateLoad_missing:
  "findRecord (drive me) store = None \<Longrightarrow> onStateLoad store me = (me, Some TypeError)"
  by (simp add: onStateLoad_def)

lemma onStateLoad_loaded:
  "loaded me \<Longrightarrow> findRecord (drive me) store = Some r \<Longrightarrow>
   onStateLoad store me = (me\<lparr>busy := truthy (state r)\<rparr>, None)"
  by (simp add: onStateLoad_def Let_def)

lemma onStateLoad_busy_first:
  "\<not> loaded me \<Longrightarrow> findRecord (drive me) store = Some r \<Longrightarrow> truthy (state r) \<Longrightarrow>
   onStateLoad store me =
     (me\<lparr>busy := True, timers := timers me @ [Mask (gettext (js ''Drive is busy''))]\<rparr>, None)"
  by (simp add: onStateLoad_def Let_def)

lemma onStateLoad_idle_first:
  "\<not> loaded me \<Longrightarrow> findRecord (drive me) store = Some r \<Longrightarrow> \<not> truthy (state r) \<Longrightarrow>
   onStateLoad store me =
     (me\<lparr>busy := False, timers := timers me @ [Unmask],
         status_loads := Suc (status_loads me), loaded := True\<rparr>, None)"
  by (simp add: onStateLoad_def Let_def reload_ok)

lemma idle_in_iff:
  "idle_in d store \<longleftrightarrow> (\<exists>r. findRecord d store = Some r \<and> \<not> truthy (state r))"
  by (auto simp: idle_in_def truthy_iff split: option.splits)

text \<open>The four ways a call of the handler goes.\<close>

lemma onStateLoad_cases:
  obtains (missing) "findRecord (drive me) store = None"
  | (latched) r where "loaded me" "findRecord (drive me) store = Some r"
  | (busy) r where "\<not> loaded me" "findRecord (drive me) store = Some r" "truthy (state r)"
  | (idle) r where "\<not> loaded me" "findRecord (drive me) store = Some r" "\<not> truthy (state r)"
  by (cases "findRecord (drive me) store") auto

lemma onStateLoad_drive: "drive (fst (onStateLoad store me)) = drive me"
  by (cases me store rule: onStateLoad_cases)
     (simp_all add: onStateLoad_missing onStateLoad_loaded onStateLoad_busy_first
        onStateLoad_idle_first)

lemma onStateLoad_sets_busy:
  "findRecord (drive me) store = Some r \<Longrightarrow>
   snd (onStateLoad store me) = None \<and> busy (fst (onStateLoad store me)) = truthy (state r)"
  by (cases me store rule: onStateLoad_cases)
     (simp_all add: onStateLoad_loaded onStateLoad_busy_first onStateLoad_idle_first)

lemma stateLoads_append: "stateLoads (xs @ ys) me = stateLoads ys (stateLoads xs me)"
  by (induction xs arbitrary: me) simp_all

lemma stateLoads_drive: "drive (stateLoads xs me) = drive me"
  by (induction xs arbitrary: me) (simp_all add: onStateLoad_drive)

lemma step_latched:
  assumes "loaded me"
  shows "loaded (fst (onStateLoad store me))" "\<not> auto_reload_fired store me"
  using assms
  by (cases me store rule: onStateLoad_cases;
      simp add: auto_reload_fired_def onStateLoad_missing onStateLoad_loaded)+

lemma step_not_idle:
  assumes "\<not> loaded me" "\<not> idle_in (drive me) store"
  shows "\<not> loaded (fst (onStateLoad store me))" "\<not> auto_reload_fired store me"
  using assms
  by (cases me store rule: onStateLoad_cases;
      simp add: auto_reload_fired_def onStateLoad_missing onStateLoad_busy_first idle_in_iff)+

lemma step_idle:
  assumes "\<not> loaded me" "idle_in (drive me) store"
  shows "loaded (fst (onStateLoad store me))" "auto_reload_fired store me"
  using assms
  by (cases me store rule: onStateLoad_cases;
      simp add: auto_reload_fired_def onStateLoad_missing onStateLoad_busy_first
        onStateLoad_idle_first idle_in_iff)+

lemma after_latch:
  "loaded me \<Longrightarrow>
   fired_at stores me = map (\<lambda>i. False) [0..<length stores]
   \<and> loaded_after stores me = map (\<lambda>i. True) [0..<length stores]"
proof (induction stores arbitrary: me)
  case Nil
  show ?case by simp
next
  case (Cons store rest)
  from Cons.IH [OF step_latched(1) [OF Cons.prems, of store]] step_latched [OF Cons.prems, of store]
  show ?case by (simp add: map_upt_Suc del: upt_Suc)
qed

lemma count_index: "length (filter (\<lambda>i. i = k) [0..<n]) = (if k < n then 1 else 0)"
  by (induction n) auto

text \<open>
  Claim C1 (the code departs from it). A snapshot of the device list without the panel's
  drive makes \<open>findRecord\<close> return \<open>null\<close>, and \<open>onStateLoad\<close> reads \<open>data\<close> of it: the
  handler raises a \<open>TypeError\<close> and leaves the panel as it was, with \<open>busy\<close> still true on
  a new panel. \<open>updateData\<close> of the information panel guards the same lookup.
\<close>

theorem onStateLoad_missing_drive_throws:
  "onStateLoad [\<lparr>name = js ''drive1'', state = None\<rparr>] (DriveStatus_new (js ''drive0''))
     = (DriveStatus_new (js ''drive0''), Some TypeError)
   \<and> busy (DriveStatus_new (js ''drive0''))"
  by (simp add: onStateLoad_def findRecord_def DriveStatus_new_def js_def)

text \<open>
  Claim C2. On every snapshot of the device list that holds the panel's drive, the handler
  returns normally and sets \<open>busy\<close> to true exactly if the drive's \<open>state\<close> is neither
  \<open>null\<close> nor the empty string. This holds in every state of the panel, so also after any
  earlier events and after the latch \<open>loaded\<close> is set.
\<close>

theorem onStateLoad_recomputes_busy:
  assumes "findRecord (drive me) store = Some r"
  shows "snd (onStateLoad store me) = None
    \<and> busy (fst (onStateLoad store me)) = (state r \<noteq> None \<and> state r \<noteq> Some [])
    \<and> busy (stateLoads (earlier @ [store]) me) = (state r \<noteq> None \<and> state r \<noteq> Some [])"
proof -
  have "findRecord (drive (stateLoads earlier me)) store = Some r"
    using assms by (simp add: stateLoads_drive)
  then have "busy (fst (onStateLoad store (stateLoads earlier me))) = truthy (state r)"
    by (simp add: onStateLoad_sets_busy)
  then show ?thesis
    using onStateLoad_sets_busy [OF assms] by (simp add: stateLoads_append truthy_iff)
qed

theorem onStateLoad_recomputes_busy_witness:
  "findRecord (drive (DriveStatus_new (js ''drive0'')))
       [\<lparr>name = js ''drive0'', state = Some (js ''UPID:eject-media'')\<rparr>]
     = Some \<lparr>name = js ''drive0'', state = Some (js ''UPID:eject-media'')\<rparr>
   \<and> loaded (stateLoads [[\<lparr>name = js ''drive0'', state = None\<rparr>]] (DriveStatus_new (js ''drive0'')))
   \<and> busy (stateLoads ([[\<lparr>name = js ''drive0'', state = None\<rparr>]]
              @ [[\<lparr>name = js ''drive0'', state = Some (js ''UPID:eject-media'')\<rparr>]])
            (DriveStatus_new (js ''drive0'')))"
proof -
  let ?b = "\<lparr>name = js ''drive0'', state = Some (js ''UPID:eject-media'')\<rparr>"
  let ?i = "\<lparr>name = js ''drive0'', state = None\<rparr>"
  have f: "findRecord (drive (DriveStatus_new (js ''drive0''))) [?b] = Some ?b"
    by (simp add: findRecord_def DriveStatus_new_def)
  have l: "loaded (stateLoads [[?i]] (DriveStatus_new (js ''drive0'')))"
    by (simp add: onStateLoad_def findRecord_def DriveStatus_new_def reload_ok Let_def)
  have n: "js ''UPID:eject-media'' \<noteq> []" by (simp add: js_def)
  show ?thesis
    using f l n onStateLoad_recomputes_busy [OF f, of "[[?i]]"] by simp
qed

text \<open>
  Claim C4. On a panel whose latch is not set, as a new panel is, take any sequence of
  snapshots of the device list. The automatic unmask and reload fires at exactly one
  event, the first in which the drive is present and idle, and at no event when there is
  none; the latch \<open>loaded\<close> is false after every event before that one and true after it
  and after every later event. So the count of events that fire is one when such an
  event exists.
\<close>

theorem auto_reload_once:
  assumes "\<not> loaded me"
  shows "fired_at stores me = map (\<lambda>i. i = first_idle (drive me) stores) [0..<length stores]
    \<and> loaded_after stores me = map (\<lambda>i. first_idle (drive me) stores \<le> i) [0..<length stores]
    \<and> length (filter (\<lambda>b. b) (fired_at stores me))
        = (if first_idle (drive me) stores < length stores then 1 else 0)"
proof -
  have main: "fired_at stores me = map (\<lambda>i. i = first_idle (drive me) stores) [0..<length stores]
    \<and> loaded_after stores me = map (\<lambda>i. first_idle (drive me) stores \<le> i) [0..<length stores]"
    using assms
  proof (induction stores arbitrary: me)
    case Nil
    show ?case by simp
  next
    case (Cons store rest)
    let ?me' = "fst (onStateLoad store me)"
    show ?case
    proof (cases "idle_in (drive me) store")
      case True
      have f: "first_idle (drive me) (store # rest) = 0"
        using True by (simp add: first_idle_def)
      from step_idle [OF Cons.prems True] after_latch [of ?me' rest]
      show ?thesis by (simp add: f map_upt_Suc del: upt_Suc)
    next
      case False
      have f: "first_idle (drive me) (store # rest) = Suc (first_idle (drive me) rest)"
        using False by (simp add: first_idle_def)
      from step_not_idle [OF Cons.prems False] Cons.IH [of ?me']
      show ?thesis by (simp add: f map_upt_Suc onStateLoad_drive del: upt_Suc)
    qed
  qed
  have "length (filter (\<lambda>b. b) (fired_at stores me))
        = length (filter (\<lambda>i. i = first_idle (drive me) stores) [0..<length stores])"
    using main by (simp add: filter_map comp_def)
  with main show ?thesis by (simp only: count_index)
qed

text \<open>The sequence busy, busy, idle, busy, idle on a new panel.\<close>

theorem auto_reload_once_witness:
  "\<not> loaded (DriveStatus_new (js ''drive0''))
   \<and> fired_at
       [[\<lparr>name = js ''drive0'', state = Some (js ''UPID:eject-media'')\<rparr>],
        [\<lparr>name = js ''drive0'', state = Some (js ''UPID:eject-media'')\<rparr>],
        [\<lparr>name = js ''drive0'', state = None\<rparr>],
        [\<lparr>name = js ''drive0'', state = Some (js ''UPID:eject-media'')\<rparr>],
        [\<lparr>name = js ''drive0'', state = None\<rparr>]]
       (DriveStatus_new (js ''drive0'')) = [False, False, True, False, False]
   \<and> loaded_after
       [[\<lparr>name = js ''drive0'', state = Some (js ''UPID:eject-media'')\<rparr>],
        [\<lparr>name = js ''drive0'', state = Some (js ''UPID:eject-media'')\<rparr>],
        [\<lparr>name = js ''drive0'', state = None\<rparr>],
        [\<lparr>name = js ''drive0'', state = Some (js ''UPID:eject-media'')\<rparr>],
        [\<lparr>name = js ''drive0'', state = None\<rparr>]]
       (DriveStatus_new (js ''drive0'')) = [False, False, True, True, True]
   \<and> status_loads (stateLoads
       [[\<lparr>name = js ''drive0'', state = Some (js ''UPID:eject-media'')\<rparr>],
        [\<lparr>name = js ''drive0'', state = Some (js ''UPID:eject-media'')\<rparr>],
        [\<lparr>name = js ''drive0'', state = None\<rparr>],
        [\<lparr>name = js ''drive0'', state = Some (js ''UPID:eject-media'')\<rparr>],
        [\<lparr>name = js ''drive0'', state = None\<rparr>]]
       (DriveStatus_new (js ''drive0''))) = 1"
proof -
  let ?b = "\<lparr>name = js ''drive0'', state = Some (js ''UPID:eject-media'')\<rparr>"
  let ?i = "\<lparr>name = js ''drive0'', state = None\<rparr>"
  let ?ss = "[[?b], [?b], [?i], [?b], [?i]]"
  have l: "\<not> loaded (DriveStatus_new (js ''drive0''))"
    by (simp add: DriveStatus_new_def)
  have d: "drive (DriveStatus_new (js ''drive0'')) = js ''drive0''"
    by (simp add: DriveStatus_new_def)
  have f: "first_idle (js ''drive0'') ?ss = 2"
    by (simp add: first_idle_def idle_in_def findRecord_def js_def)
  have n: "length ?ss = 5" by simp
  have u: "[0..<5] = [0, 1, 2, 3, 4::nat]" by (simp add: upt_rec)
  have s: "status_loads (stateLoads ?ss (DriveStatus_new (js ''drive0''))) = 1"
    by (simp add: onStateLoad_def findRecord_def js_def DriveStatus_new_def reload_ok Let_def)
  show ?thesis
    using auto_reload_once [OF l, of ?ss] s l
    unfolding d f n u by simp
qed

text \<open>
  Claim C5, as the code has it. On a panel whose latch \<open>loaded\<close> is set, a snapshot in
  which a task owns the drive again sets \<open>busy\<close> to true and does nothing else: no mask
  is queued for the status grid, the latch stays set, the status grid is not reloaded, and
  the handler returns normally.
\<close>

theorem busy_after_latch_only_sets_flag:
  assumes "loaded me" and "findRecord (drive me) store = Some r"
    and "state r \<noteq> None" and "state r \<noteq> Some []"
  shows "onStateLoad store me = (me\<lparr>busy := True\<rparr>, None)"
  using onStateLoad_loaded [OF assms(1,2)] assms(3,4) by (simp add: truthy_iff)

theorem busy_after_latch_only_sets_flag_witness:
  "loaded (stateLoads [[\<lparr>name = js ''drive0'', state = None\<rparr>]] (DriveStatus_new (js ''drive0'')))
   \<and> onStateLoad [\<lparr>name = js ''drive0'', state = Some (js ''UPID:eject-media'')\<rparr>]
       (stateLoads [[\<lparr>name = js ''drive0'', state = None\<rparr>]] (DriveStatus_new (js ''drive0'')))
     = ((stateLoads [[\<lparr>name = js ''drive0'', state = None\<rparr>]] (DriveStatus_new (js ''drive0'')))
          \<lparr>busy := True\<rparr>, None)"
proof -
  let ?b = "\<lparr>name = js ''drive0'', state = Some (js ''UPID:eject-media'')\<rparr>"
  let ?p = "stateLoads [[\<lparr>name = js ''drive0'', state = None\<rparr>]] (DriveStatus_new (js ''drive0''))"
  have l: "loaded ?p"
    by (simp add: onStateLoad_def findRecord_def DriveStatus_new_def reload_ok Let_def)
  have f: "findRecord (drive ?p) [?b] = Some ?b"
    by (simp only: stateLoads_drive) (simp add: findRecord_def DriveStatus_new_def)
  have n: "state ?b \<noteq> None" "state ?b \<noteq> Some []" by (simp_all add: js_def)
  show ?thesis
    using l busy_after_latch_only_sets_flag [OF l f n] by simp
qed

text \<open>
  Against claim C5 as stated: a new panel sees the drive idle, which queues the unmask,
  reloads once and sets the latch; the next snapshot has the drive busy, and the queue
  of callbacks for the status grid is still the single unmask. No mask was queued.
\<close>

theorem busy_after_latch_no_mask:
  "loaded (stateLoads [[\<lparr>name = js ''drive0'', state = None\<rparr>]] (DriveStatus_new (js ''drive0'')))
   \<and> timers (stateLoads [[\<lparr>name = js ''drive0'', state = None\<rparr>]] (DriveStatus_new (js ''drive0'')))
       = [Unmask]
   \<and> busy (fst (onStateLoad [\<lparr>name = js ''drive0'', state = Some (js ''UPID:eject-media'')\<rparr>]
       (stateLoads [[\<lparr>name = js ''drive0'', state = None\<rparr>]] (DriveStatus_new (js ''drive0'')))))
   \<and> timers (fst (onStateLoad [\<lparr>name = js ''drive0'', state = Some (js ''UPID:eject-media'')\<rparr>]
       (stateLoads [[\<lparr>name = js ''drive0'', state = None\<rparr>]] (DriveStatus_new (js ''drive0'')))))
       = [Unmask]"
  by (simp add: onStateLoad_def findRecord_def DriveStatus_new_def reload_ok Let_def js_def)


subsection \<open>Commands and task handles\<close>

lemma driveCommand_Success:
  "driveCommand d c (Success x) (\<lambda>y. show_window (w y)) me
     = (me\<lparr>requests := requests me @ [(d, c)], windows := windows me @ [w x]\<rparr>, None)"
  by (simp add: driveCommand_def show_window_def Let_def)

lemma driveCommand_Failure:
  "driveCommand d c (Failure msg) k me
     = (me\<lparr>requests := requests me @ [(d, c)], windows := windows me @ [ErrorAlert msg]\<rparr>, None)"
  by (simp add: driveCommand_def Let_def)

lemma readLabel_result:
  "readLabel resp me =
     (me\<lparr>requests := requests me @ [(drive me, ''read-label'')],
         windows := windows me
           @ [case resp of Success d \<Rightarrow> MediaLabelWindow d | Failure msg \<Rightarrow> ErrorAlert msg]\<rparr>,
      None)"
  by (cases resp) (simp_all add: readLabel_def driveCommand_Success driveCommand_Failure)

text \<open>
  Claim C6. \<open>readLabel\<close>, whatever the backend answers, adds no task handle to the panel
  and does not load the status grid, and the window it opens has no completion callback,
  so no later event of it reloads the panel. \<open>ejectMedia\<close>, when the backend returns a
  task identifier, adds exactly one task handle, made from that identifier, and does not
  itself reload; every completion event of that handle, in whatever state the panel is
  then, loads the status grid exactly once more.
\<close>

theorem readLabel_no_task_ejectMedia_task:
  "task_handles (fst (readLabel resp me)) = task_handles me
   \<and> status_loads (fst (readLabel resp me)) = status_loads me
   \<and> windows (fst (readLabel resp me)) = windows me
        @ [case resp of Success d \<Rightarrow> MediaLabelWindow d | Failure msg \<Rightarrow> ErrorAlert msg]
   \<and> taskDone (case resp of Success d \<Rightarrow> MediaLabelWindow d | Failure msg \<Rightarrow> ErrorAlert msg) later
        = (later, None)
   \<and> snd (ejectMedia (Success upid) me) = None
   \<and> task_handles (fst (ejectMedia (Success upid) me)) = task_handles me @ [TaskProgress upid]
   \<and> status_loads (fst (ejectMedia (Success upid) me)) = status_loads me
   \<and> taskDone (TaskProgress upid) later
        = (later\<lparr>status_loads := Suc (status_loads later)\<rparr>, None)"
proof -
  have r: "task_handles (fst (readLabel resp me)) = task_handles me"
    by (cases resp) (simp_all add: readLabel_result task_handles_def)
  have t: "taskDone (case resp of Success d \<Rightarrow> MediaLabelWindow d
                      | Failure msg \<Rightarrow> ErrorAlert msg) later = (later, None)"
    by (cases resp) simp_all
  have e: "ejectMedia (Success upid) me
      = (me\<lparr>requests := requests me @ [(drive me, ''eject-media'')],
            windows := windows me @ [TaskProgress upid]\<rparr>, None)"
    by (simp add: ejectMedia_def driveCommand_Success)
  have s: "status_loads (fst (readLabel resp me)) = status_loads me"
    "windows (fst (readLabel resp me)) = windows me
       @ [case resp of Success d \<Rightarrow> MediaLabelWindow d | Failure msg \<Rightarrow> ErrorAlert msg]"
    by (simp_all add: readLabel_result)
  have h: "task_handles (fst (ejectMedia (Success upid) me)) = task_handles me @ [TaskProgress upid]"
    by (simp add: e task_handles_def)
  have n: "snd (ejectMedia (Success upid) me) = None"
    "status_loads (fst (ejectMedia (Success upid) me)) = status_loads me"
    by (simp_all add: e)
  show ?thesis
    by (simp add: r s t h n reload_ok)
qed

theorem readLabel_no_task_ejectMedia_task_witness:
  "task_handles (fst (readLabel (Success (Obj [(''label-text'', js ''TAPE01'')]))
       (DriveStatus_new (js ''drive0'')))) = []
   \<and> status_loads (fst (readLabel (Success (Obj [(''label-text'', js ''TAPE01'')]))
       (DriveStatus_new (js ''drive0'')))) = 0
   \<and> task_handles (fst (ejectMedia (Success (Str (js ''UPID:eject-media'')))
       (DriveStatus_new (js ''drive0'')))) = [TaskProgress (Str (js ''UPID:eject-media''))]
   \<and> status_loads (fst (taskDone (TaskProgress (Str (js ''UPID:eject-media'')))
       (fst (ejectMedia (Success (Str (js ''UPID:eject-media'')))
          (DriveStatus_new (js ''drive0'')))))) = 1"
proof -
  have h: "task_handles (DriveStatus_new (js ''drive0'')) = []"
    "status_loads (DriveStatus_new (js ''drive0'')) = 0"
    by (simp_all add: task_handles_def DriveStatus_new_def)
  show ?thesis
    using readLabel_no_task_ejectMedia_task
      [of "Success (Obj [(''label-text'', js ''TAPE01'')])" "DriveStatus_new (js ''drive0'')"
          "fst (ejectMedia (Success (Str (js ''UPID:eject-media''))) (DriveStatus_new (js ''drive0'')))"
          "Str (js ''UPID:eject-media'')"]
    by (simp add: h)
qed

subsection \<open>The toolbar\<close>

text \<open>
  Claim C7. Whether a button of the toolbar is enabled is a function of the flags alone:
  Reload is enabled exactly if \<open>busy\<close> is false; Label Media, Eject, Catalog, Read Label,
  Volume Statistics and Cartridge Memory are enabled exactly if \<open>online\<close> is true,
  whatever \<open>busy\<close> is.
\<close>

theorem button_enabled_by_flags:
  "button_enabled ''Reload'' me = Some (\<not> busy me)
   \<and> button_enabled ''Label Media'' me = Some (online me)
   \<and> button_enabled ''Eject'' me = Some (online me)
   \<and> button_enabled ''Catalog'' me = Some (online me)
   \<and> button_enabled ''Read Label'' me = Some (online me)
   \<and> button_enabled ''Volume Statistics'' me = Some (online me)
   \<and> button_enabled ''Cartridge Memory'' me = Some (online me)"
  by (simp add: button_enabled_def tbar_def bind_value_def vm_get_def)

theorem button_enabled_by_flags_witness:
  "button_enabled ''Reload'' (DriveStatus_new (js ''drive0'')) = Some False
   \<and> button_enabled ''Eject'' (DriveStatus_new (js ''drive0'')) = Some False
   \<and> button_enabled ''Reload'' ((DriveStatus_new (js ''drive0''))\<lparr>busy := False\<rparr>) = Some True
   \<and> button_enabled ''Label Media'' ((DriveStatus_new (js ''drive0''))\<lparr>busy := False\<rparr>)
       = Some False"
  using button_enabled_by_flags [of "DriveStatus_new (js ''drive0'')"]
    button_enabled_by_flags [of "(DriveStatus_new (js ''drive0''))\<lparr>busy := False\<rparr>"]
  by (simp add: DriveStatus_new_def)

subsection \<open>Going offline\<close>

lemma onLoad_offline_throws:
  "\<not> online (fst (onLoad rows me)) \<Longrightarrow>
   onLoad rows me = (me\<lparr>online := False\<rparr>, Some TypeError)"
  by (simp add: onLoad_def lookup_statusgrid lookup_cartridgegrid Let_def split: if_splits)

text \<open>
  Claim C8 (the code departs from it). The view of the status panel holds no component
  with the reference \<open>cartridgegrid\<close>, so the lookup in \<open>onLoad\<close> is \<open>null\<close> and the call
  that should clear the listing raises a \<open>TypeError\<close>: a panel that was online and loads
  the status \<open>OFFLINE\<close> gets \<open>online\<close> set to false, and the handler throws; no store is
  cleared.
\<close>

theorem onLoad_offline_raises:
  "onLoad [''status'' \<mapsto> js ''ONLINE''] (DriveStatus_new (js ''drive0''))
     = ((DriveStatus_new (js ''drive0''))\<lparr>online := True\<rparr>, None)
   \<and> onLoad [''status'' \<mapsto> js ''OFFLINE''] ((DriveStatus_new (js ''drive0''))\<lparr>online := True\<rparr>)
     = ((DriveStatus_new (js ''drive0''))\<lparr>online := False\<rparr>, Some TypeError)
   \<and> lookup ''cartridgegrid'' = None"
  by (simp add: onLoad_def lookup_statusgrid lookup_cartridgegrid Let_def split_ws_def
      or_empty_def getObjectValue_def js_def is_space_def DriveStatus_new_def)

subsection \<open>The information panel\<close>

lemma updateData_listeners: "info_listeners (fst (updateData store me)) = info_listeners me"
  by (simp add: updateData_def Let_def split: option.splits)

lemma updateData_no_throw_string: "snd (updateData store me) \<noteq> Some (Thrown msg)"
  by (simp add: updateData_def Let_def split: option.splits)

text \<open>
  Claim C10. \<open>initComponent\<close> of the drive information panel: without a drive (the
  configuration absent or the empty string) it throws \<open>no drive given\<close> and the panel is
  as before, so nothing is registered on the device list; with a drive it never throws
  that, and once the device list is found its listener is registered.
\<close>

theorem initComponent_requires_drive:
  "(if info_drive me = None \<or> info_drive me = Some []
    then initComponent navigationtree me = (me, Some (Thrown (js ''no drive given'')))
    else snd (initComponent navigationtree me) \<noteq> Some (Thrown (js ''no drive given''))
      \<and> (case navigationtree of
            [] \<Rightarrow> initComponent navigationtree me = (me, Some TypeError)
          | tapeStore # _ \<Rightarrow>
              info_listeners (fst (initComponent navigationtree me))
                = info_listeners me @ [(''tapeStore'', ''updateData'')]))"
proof (cases "info_drive me = None \<or> info_drive me = Some []")
  case True
  then have "\<not> truthy (info_drive me)" by (auto simp: truthy_iff)
  with True show ?thesis by (simp add: initComponent_def)
next
  case False
  then have t: "truthy (info_drive me)" by (auto simp: truthy_iff)
  show ?thesis
  proof (cases navigationtree)
    case Nil
    with False t show ?thesis by (simp add: initComponent_def)
  next
    case (Cons tapeStore rest)
    let ?me1 = "me\<lparr>info_listeners := info_listeners me @ [(''tapeStore'', ''updateData'')]\<rparr>"
    obtain me2 e where u: "updateData (Some tapeStore) ?me1 = (me2, e)"
      by (cases "updateData (Some tapeStore) ?me1")
    have l: "info_listeners me2 = info_listeners me @ [(''tapeStore'', ''updateData'')]"
      using updateData_listeners [of "Some tapeStore" ?me1] u by simp
    have n: "e \<noteq> Some (Thrown (js ''no drive given''))"
      using updateData_no_throw_string [of "Some tapeStore" ?me1] u by simp
    show ?thesis
      using False t Cons u l n
      by (cases e) (simp_all add: initComponent_def Let_def)
  qed
qed

theorem initComponent_requires_drive_witness:
  "initComponent [\<lparr>records = [], isLoaded = False\<rparr>]
     \<lparr>info_drive = None, vm_drive = None, info_listeners = [], click_listener = False,
      info_pointer = False, parent_initialized = False\<rparr>
     = (\<lparr>info_drive = None, vm_drive = None, info_listeners = [], click_listener = False,
         info_pointer = False, parent_initialized = False\<rparr>,
        Some (Thrown (js ''no drive given'')))
   \<and> snd (initComponent [\<lparr>records = [], isLoaded = False\<rparr>]
       \<lparr>info_drive = Some (js ''drive0''), vm_drive = None, info_listeners = [],
        click_listener = False, info_pointer = False, parent_initialized = False\<rparr>)
     \<noteq> Some (Thrown (js ''no drive given''))
   \<and> info_listeners (fst (initComponent [\<lparr>records = [], isLoaded = False\<rparr>]
       \<lparr>info_drive = Some (js ''drive0''), vm_drive = None, info_listeners = [],
        click_listener = False, info_pointer = False, parent_initialized = False\<rparr>))
     = [(''tapeStore'', ''updateData'')]"
proof -
  have n: "js ''drive0'' \<noteq> []" by (simp add: js_def)
  show ?thesis
    using n
      initComponent_requires_drive [of
        "\<lparr>info_drive = None, vm_drive = None, info_listeners = [], click_listener = False,
          info_pointer = False, parent_initialized = False\<rparr>"
        "[\<lparr>records = [], isLoaded = False\<rparr>]"]
      initComponent_requires_drive [of
        "\<lparr>info_drive = Some (js ''drive0''), vm_drive = None, info_listeners = [],
          click_listener = False, info_pointer = False, parent_initialized = False\<rparr>"
        "[\<lparr>records = [], isLoaded = False\<rparr>]"]
    by simp
qed


end
